theory Spec2Isabelle
  imports Main
begin

section \<open>Elements of a Float64Array\<close>

text \<open>
  The matrix of \<^verbatim>\<open>src/index.ts\<close> keeps its elements in a \<^verbatim>\<open>Float64Array\<close>, so every
  element is an IEEE 754 binary64 value and \<^verbatim>\<open>+\<close>, \<^verbatim>\<open>-\<close>, \<^verbatim>\<open>*\<close> on elements are the
  binary64 operations with round-to-nearest, ties-to-even.

  A value is \<open>NaN\<close>, an infinity with its sign (\<open>True\<close> is negative), or a finite
  number \<open>Fin s m e\<close> standing for \<open>(-1)^s * m * 2^e\<close>. Each finite binary64 number
  has one representation that the arithmetic below returns: \<open>m\<close> is odd, \<open>m < 2^53\<close>,
  \<open>-1074 \<le> e\<close> and \<open>m * 2^e < 2^1024\<close>; the two zeros are \<open>Fin s 0 0\<close>. So
  \<open>1\<close> is \<open>Fin False 1 0\<close>, \<open>0.1\<close> is \<open>Fin False 3602879701896397 (- 55)\<close> and the
  smallest subnormal is \<open>Fin False 1 (- 1074)\<close>.
\<close>

datatype f64 = NaN | Inf bool | Fin bool nat int

fun bit_length :: "nat \<Rightarrow> nat" where
  "bit_length n = (if n = 0 then 0 else Suc (bit_length (n div 2)))"

declare bit_length.simps [simp del]

fun strip_zero_bits :: "bool \<Rightarrow> nat \<Rightarrow> int \<Rightarrow> f64" where
  "strip_zero_bits s m e =
     (if m \<noteq> 0 \<and> even m then strip_zero_bits s (m div 2) (e + 1) else Fin s m e)"

declare strip_zero_bits.simps [simp del]

definition finish_f64 :: "bool \<Rightarrow> nat \<Rightarrow> int \<Rightarrow> f64" where
  \<comment> \<open>\<open>m * 2^e\<close> with \<open>m < 2^53\<close> or \<open>m = 2^53\<close>, and \<open>-1074 \<le> e\<close>: overflow to infinity
     from \<open>2^1024\<close> on\<close>
  "finish_f64 s m e =
     (if m = 0 then Fin s 0 0
      else if 1024 < e + int (bit_length m) then Inf s
      else strip_zero_bits s m e)"

definition round_f64 :: "bool \<Rightarrow> nat \<Rightarrow> int \<Rightarrow> f64" where
  \<comment> \<open>the binary64 nearest to \<open>(-1)^s * m * 2^e\<close>, ties to the even significand: keep 53
     bits, or fewer where the exponent would fall below \<open>-1074\<close>\<close>
  "round_f64 s m e =
     (let e' = max (e + int (bit_length m) - 53) (- 1074) in
      if e' \<le> e then finish_f64 s m e
      else
        let sh = nat (e' - e);
            q = m div 2 ^ sh;
            r = m mod 2 ^ sh;
            half = 2 ^ (sh - 1);
            q' = (if half < r \<or> (r = half \<and> odd q) then q + 1 else q)
        in finish_f64 s q' e')"

definition with_sign :: "bool \<Rightarrow> nat \<Rightarrow> int" where
  "with_sign s m = (if s then - int m else int m)"

fun f64_add :: "f64 \<Rightarrow> f64 \<Rightarrow> f64" where
  "f64_add NaN y = NaN"
| "f64_add x NaN = NaN"
| "f64_add (Inf s) (Inf t) = (if s = t then Inf s else NaN)"
| "f64_add (Inf s) (Fin t m e) = Inf s"
| "f64_add (Fin s m e) (Inf t) = Inf t"
| "f64_add (Fin s1 m1 e1) (Fin s2 m2 e2) =
     (let e = min e1 e2;
          v = with_sign s1 (m1 * 2 ^ nat (e1 - e)) + with_sign s2 (m2 * 2 ^ nat (e2 - e))
      in if v = 0 then Fin (s1 \<and> s2) 0 0
         else round_f64 (v < 0) (nat \<bar>v\<bar>) e)"

fun f64_neg :: "f64 \<Rightarrow> f64" where
  "f64_neg NaN = NaN"
| "f64_neg (Inf s) = Inf (\<not> s)"
| "f64_neg (Fin s m e) = Fin (\<not> s) m e"

definition f64_sub :: "f64 \<Rightarrow> f64 \<Rightarrow> f64" where
  "f64_sub x y = f64_add x (f64_neg y)"

fun f64_mul :: "f64 \<Rightarrow> f64 \<Rightarrow> f64" where
  "f64_mul NaN y = NaN"
| "f64_mul x NaN = NaN"
| "f64_mul (Inf s) (Inf t) = Inf (s \<noteq> t)"
| "f64_mul (Inf s) (Fin t m e) = (if m = 0 then NaN else Inf (s \<noteq> t))"
| "f64_mul (Fin s m e) (Inf t) = (if m = 0 then NaN else Inf (s \<noteq> t))"
| "f64_mul (Fin s1 m1 e1) (Fin s2 m2 e2) = round_f64 (s1 \<noteq> s2) (m1 * m2) (e1 + e2)"

definition f64_of_int :: "int \<Rightarrow> f64" where
  \<comment> \<open>the value of an integer literal\<close>
  "f64_of_int i = round_f64 (i < 0) (nat \<bar>i\<bar>) 0"

definition f64_zero :: f64 where
  \<comment> \<open>\<open>+0\<close>, the literal \<^verbatim>\<open>0\<close> and the fill value of a new Float64Array\<close>
  "f64_zero = Fin False 0 0"

fun is_zero :: "f64 \<Rightarrow> bool" where
  "is_zero (Fin s m e) = (m = 0)"
| "is_zero x = False"

fun is_finite :: "f64 \<Rightarrow> bool" where
  "is_finite (Fin s m e) = True"
| "is_finite x = False"

section \<open>The Matrix class\<close>

text \<open>
  \<^verbatim>\<open>class Matrix\<close> has three public fields. \<^verbatim>\<open>rows\<close> and \<^verbatim>\<open>columns\<close> are the
  non-negative integer counts of the data model, so they are natural numbers here.
  Every value of type \<^verbatim>\<open>MatrixInterface\<close> is an instance of \<^verbatim>\<open>Matrix\<close>, the only class
  of the repository that implements the interface.
\<close>

record Matrix =
  array :: "f64 list"
  rows :: nat
  columns :: nat

text \<open>
  The two \<^verbatim>\<open>throw new Error(...)\<close> messages: "Cannot \<open>verb\<close>. Matrices dimensions aren't
  the same: r x c / r x c" (the verb is set, add, subtract or product) and "Cannot
  multiply. Matrices have incompatible dimensions: r x c / r x c". The four numbers are
  \<^verbatim>\<open>this.rows\<close>, \<^verbatim>\<open>this.columns\<close>, \<^verbatim>\<open>a.rows\<close>, \<^verbatim>\<open>a.columns\<close>.
\<close>

datatype error =
  DimensionsNotSame string nat nat nat nat
| IncompatibleDimensions nat nat nat nat

text \<open>
  A method call either returns \<^verbatim>\<open>this\<close> or throws. Both outcomes carry the state of the
  receiver when the call ends, so that a mutation made before a throw would be visible.
\<close>

datatype outcome =
  Returned (receiver: Matrix)
| Threw (thrown: error) (receiver: Matrix)

definition and_then :: "outcome \<Rightarrow> (Matrix \<Rightarrow> outcome) \<Rightarrow> outcome" where
  \<comment> \<open>method chaining \<^verbatim>\<open>x.f().g()\<close>: an exception of \<open>f\<close> skips \<open>g\<close>\<close>
  "and_then r g = (case r of Returned m \<Rightarrow> g m | Threw e m \<Rightarrow> Threw e m)"

definition elem :: "f64 list \<Rightarrow> nat \<Rightarrow> f64" where
  \<comment> \<open>\<^verbatim>\<open>xs[i]\<close> on a Float64Array, used as a number: past the end the read is
     \<^verbatim>\<open>undefined\<close>, which every use in this class converts to NaN\<close>
  "elem xs i = (if i < length xs then xs ! i else NaN)"

definition constructor :: "nat \<Rightarrow> nat \<Rightarrow> Matrix" where
  "constructor r c = \<lparr>array = replicate (r * c) f64_zero, rows = r, columns = c\<rparr>"

text \<open>
  \<^verbatim>\<open>set\<close> takes a matrix or a flat sequence (\<^verbatim>\<open>Float64Array\<close> or \<^verbatim>\<open>number[]\<close>; both are
  copied by \<^verbatim>\<open>new Float64Array(a)\<close>). A sequence of another length is only reported with
  \<^verbatim>\<open>console.warn\<close>, which changes nothing in the matrix; the assignment happens all the same.
\<close>

datatype source = FromMatrix Matrix | FromSequence "f64 list"

fun set_M :: "Matrix \<Rightarrow> source \<Rightarrow> outcome" where
  "set_M self (FromMatrix a) =
     (if rows self \<noteq> rows a \<or> columns self \<noteq> columns a
      then Threw (DimensionsNotSame ''set'' (rows self) (columns self) (rows a) (columns a)) self
      else Returned (self\<lparr>array := array a\<rparr>))"
| "set_M self (FromSequence xs) = Returned (self\<lparr>array := xs\<rparr>)"

definition clone :: "Matrix \<Rightarrow> outcome" where
  \<comment> \<open>the outcome holds the new object; \<^verbatim>\<open>this\<close> is only read\<close>
  "clone self = set_M (constructor (rows self) (columns self)) (FromSequence (array self))"

definition map_M :: "(f64 \<Rightarrow> nat \<Rightarrow> f64 list \<Rightarrow> f64) \<Rightarrow> Matrix \<Rightarrow> outcome" where
  \<comment> \<open>\<^verbatim>\<open>Float64Array.prototype.map\<close> calls the predicate with value, index and the array\<close>
  "map_M predicate self =
     Returned (self\<lparr>array :=
       map (\<lambda>i. predicate (array self ! i) i (array self)) [0..<length (array self)]\<rparr>)"

definition randomize :: "(nat \<Rightarrow> f64) \<Rightarrow> Matrix \<Rightarrow> outcome" where
  \<comment> \<open>\<open>random k\<close> is what the \<open>k\<close>-th call of \<^verbatim>\<open>Math.random()\<close> returns\<close>
  "randomize random self = and_then (map_M (\<lambda>_ i _. random i) self) Returned"

definition forEach_assign :: "(f64 \<Rightarrow> nat \<Rightarrow> f64) \<Rightarrow> f64 list \<Rightarrow> f64 list" where
  \<comment> \<open>\<^verbatim>\<open>this.array.forEach((_, i) => this.array[i] = f(this.array[i], i))\<close>\<close>
  "forEach_assign f xs = foldl (\<lambda>ys i. ys[i := f (elem ys i) i]) xs [0..<length xs]"

definition add :: "Matrix \<Rightarrow> Matrix \<Rightarrow> outcome" where
  "add self a =
     (if rows self \<noteq> rows a \<or> columns self \<noteq> columns a
      then Threw (DimensionsNotSame ''add'' (rows self) (columns self) (rows a) (columns a)) self
      else Returned (self\<lparr>array :=
             forEach_assign (\<lambda>x i. f64_add x (elem (array a) i)) (array self)\<rparr>))"

definition subtract :: "Matrix \<Rightarrow> Matrix \<Rightarrow> outcome" where
  "subtract self a =
     (if rows self \<noteq> rows a \<or> columns self \<noteq> columns a
      then Threw (DimensionsNotSame ''subtract'' (rows self) (columns self) (rows a) (columns a)) self
      else Returned (self\<lparr>array :=
             forEach_assign (\<lambda>x i. f64_sub x (elem (array a) i)) (array self)\<rparr>))"

definition hadamardProduct :: "Matrix \<Rightarrow> Matrix \<Rightarrow> outcome" where
  "hadamardProduct self a =
     (if rows self \<noteq> rows a \<or> columns self \<noteq> columns a
      then Threw (DimensionsNotSame ''product'' (rows self) (columns self) (rows a) (columns a)) self
      else Returned (self\<lparr>array :=
             forEach_assign (\<lambda>x i. f64_mul x (elem (array a) i)) (array self)\<rparr>))"

definition multiplyByScalar :: "Matrix \<Rightarrow> f64 \<Rightarrow> outcome" where
  "multiplyByScalar self s =
     Returned (self\<lparr>array := forEach_assign (\<lambda>x i. f64_mul x s) (array self)\<rparr>)"

text \<open>
  \<^verbatim>\<open>multiply\<close>: the three nested \<^verbatim>\<open>for\<close> loops, innermost first. \<open>multiply_value\<close> is
  the \<open>k\<close> loop with its accumulator \<^verbatim>\<open>value\<close>, \<open>multiply_row\<close> the \<open>j\<close> loop of one
  \<open>i\<close>, \<open>multiply_result\<close> the \<open>i\<close> loop over the fresh zero-filled \<^verbatim>\<open>result\<close>.
\<close>

definition multiply_value :: "Matrix \<Rightarrow> Matrix \<Rightarrow> nat \<Rightarrow> nat \<Rightarrow> f64" where
  "multiply_value self a iR j =
     foldl (\<lambda>value k.
              f64_add value (f64_mul (elem (array self) (iR + k))
                                     (elem (array a) (k * columns a + j))))
       f64_zero [0..<rows a]"

definition multiply_row :: "Matrix \<Rightarrow> Matrix \<Rightarrow> f64 list \<Rightarrow> nat \<Rightarrow> f64 list" where
  "multiply_row self a result i =
     (let iR = i * rows a; iC = i * columns a
      in foldl (\<lambda>res j. res[iC + j := multiply_value self a iR j]) result [0..<columns a])"

definition multiply_result :: "Matrix \<Rightarrow> Matrix \<Rightarrow> f64 list" where
  "multiply_result self a =
     foldl (multiply_row self a) (replicate (rows self * columns a) f64_zero) [0..<rows self]"

definition multiply :: "Matrix \<Rightarrow> Matrix \<Rightarrow> outcome" where
  "multiply self a =
     (if columns self \<noteq> rows a
      then Threw (IncompatibleDimensions (rows self) (columns self) (rows a) (columns a)) self
      else let result = multiply_result self a
           in set_M (self\<lparr>columns := columns a\<rparr>) (FromSequence result))"

definition transpose_row :: "Matrix \<Rightarrow> f64 list \<Rightarrow> nat \<Rightarrow> f64 list" where
  "transpose_row self result i =
     foldl (\<lambda>res j. res[j * rows self + i := elem (array self) (i * columns self + j)])
       result [0..<columns self]"

definition transpose_result :: "Matrix \<Rightarrow> f64 list" where
  "transpose_result self =
     foldl (transpose_row self) (replicate (rows self * columns self) f64_zero) [0..<rows self]"

definition transpose_M :: "Matrix \<Rightarrow> outcome" where
  "transpose_M self =
     (let result = transpose_result self
      in set_M (self\<lparr>rows := columns self, columns := rows self\<rparr>) (FromSequence result))"

definition shape_ok :: "Matrix \<Rightarrow> bool" where
  \<comment> \<open>the invariant of the data model\<close>
  "shape_ok m = (length (array m) = rows m * columns m)"

text \<open>
  The expression \<^verbatim>\<open>M.clone().add(A).subtract(A)\<close> of the round-trip property.
\<close>

definition clone_add_subtract :: "Matrix \<Rightarrow> Matrix \<Rightarrow> outcome" where
  "clone_add_subtract M A = and_then (and_then (clone M) (\<lambda>c. add c A)) (\<lambda>c. subtract c A)"

section \<open>Evaluation\<close>

text \<open>
  Rules that compute the arithmetic and the loops on literals. \<open>let\<close> is evaluated
  argument first (\<open>cong: let_weak_cong\<close>), so that every rounding step sees numerals.
\<close>

lemmas f64_eval = upt_conv_Cons round_f64_def finish_f64_def strip_zero_bits.simps f64_of_int_def
  f64_zero_def f64_sub_def with_sign_def bit_length.simps Let_def

lemmas matrix_eval = add_def subtract_def hadamardProduct_def multiplyByScalar_def
  multiply_def multiply_result_def multiply_row_def multiply_value_def
  transpose_M_def transpose_result_def transpose_row_def
  clone_def constructor_def and_then_def forEach_assign_def elem_def shape_ok_def

subsection \<open>The arithmetic on known doubles\<close>

text \<open>
  \<^verbatim>\<open>0.1 + 0.2\<close> is \<^verbatim>\<open>0.30000000000000004\<close>, \<^verbatim>\<open>0.1 * 0.2\<close> is \<^verbatim>\<open>0.020000000000000004\<close>,
  \<^verbatim>\<open>2**53 + 1\<close> is \<^verbatim>\<open>2**53\<close> and \<^verbatim>\<open>2**53 + 3\<close> is \<^verbatim>\<open>2**53 + 4\<close> (ties to even),
  \<^verbatim>\<open>Number.MAX_VALUE * 2\<close> is \<^verbatim>\<open>Infinity\<close>, half of the smallest subnormal is \<^verbatim>\<open>0\<close>,
  \<^verbatim>\<open>-0 + 0\<close> is \<^verbatim>\<open>+0\<close>, \<^verbatim>\<open>-5 * 0\<close> is \<^verbatim>\<open>-0\<close> and \<^verbatim>\<open>Infinity - Infinity\<close> is NaN.
\<close>

lemma f64_check_tenth_plus_fifth:
  "f64_add (Fin False 3602879701896397 (- 55)) (Fin False 3602879701896397 (- 54))
     = Fin False 1351079888211149 (- 52)"
  by (simp add: f64_eval cong: let_weak_cong)

lemma f64_check_tenth_times_fifth:
  "f64_mul (Fin False 3602879701896397 (- 55)) (Fin False 3602879701896397 (- 54))
     = Fin False 1441151880758559 (- 56)"
  by (simp add: f64_eval cong: let_weak_cong)

lemma f64_check_ties_to_even:
  "f64_add (f64_of_int 9007199254740992) (f64_of_int 1) = f64_of_int 9007199254740992
   \<and> f64_add (f64_of_int 9007199254740992) (f64_of_int 3) = f64_of_int 9007199254740996"
  by (simp add: f64_eval cong: let_weak_cong)

lemma f64_check_overflow:
  "f64_mul (Fin False (2 ^ 53 - 1) 971) (f64_of_int 2) = Inf False
   \<and> f64_add (Fin False (2 ^ 53 - 1) 971) (Fin False 1 969) = Fin False (2 ^ 53 - 1) 971"
  by (simp add: f64_eval cong: let_weak_cong)

lemma f64_check_underflow:
  "f64_mul (Fin False 1 (- 1074)) (Fin False 1 (- 1)) = Fin False 0 0
   \<and> f64_mul (Fin True 3 (- 1074)) (Fin False 1 (- 1)) = Fin True 1 (- 1073)"
  by (simp add: f64_eval cong: let_weak_cong)

lemma f64_check_zeros:
  "f64_add (Fin True 0 0) (Fin False 0 0) = Fin False 0 0
   \<and> f64_add (Fin True 0 0) (Fin True 0 0) = Fin True 0 0
   \<and> f64_sub (f64_of_int 5) (f64_of_int 5) = Fin False 0 0
   \<and> f64_mul (f64_of_int (- 5)) f64_zero = Fin True 0 0"
  by (simp add: f64_eval cong: let_weak_cong)

lemma f64_check_infinity:
  "f64_sub (f64_add (f64_of_int 1) (Inf False)) (Inf False) = NaN"
  by (simp add: f64_eval cong: let_weak_cong)

lemma round_f64_zero: "round_f64 s 0 e = Fin s 0 0"
  by (simp add: round_f64_def finish_f64_def bit_length.simps Let_def)

lemma f64_mul_zero:
  "f64_mul x f64_zero = (case x of Fin s m e \<Rightarrow> Fin s 0 0 | _ \<Rightarrow> NaN)"
  by (cases x) (simp_all add: f64_zero_def round_f64_zero)

subsection \<open>Integers below \<open>2^53\<close>\<close>

text \<open>
  Doubles hold the integers of magnitude below \<open>2^53\<close> exactly, and add and subtract them
  exactly while the result stays below \<open>2^53\<close>.
\<close>

lemma bit_length_bound: "n < 2 ^ k \<Longrightarrow> bit_length n \<le> k"
proof (induction n arbitrary: k rule: bit_length.induct)
  case (1 n)
  show ?case
  proof (cases "n = 0")
    case True
    then show ?thesis by (simp add: bit_length.simps)
  next
    case False
    then obtain k' where k: "k = Suc k'" using "1.prems" by (cases k) auto
    then have "n div 2 < 2 ^ k'" using "1.prems" by auto
    then have "bit_length (n div 2) \<le> k'" using "1.IH" False by blast
    then show ?thesis using False k by (subst bit_length.simps) simp
  qed
qed

lemma strip_zero_bits_shift:
  "m \<noteq> 0 \<Longrightarrow> strip_zero_bits s (m * 2 ^ k) e = strip_zero_bits s m (e + int k)"
proof (induction k arbitrary: e)
  case 0
  then show ?case by simp
next
  case (Suc k)
  have "strip_zero_bits s (m * 2 ^ Suc k) e = strip_zero_bits s (m * 2 ^ k) (e + 1)"
    using Suc.prems by (subst strip_zero_bits.simps) simp
  also have "\<dots> = strip_zero_bits s m (e + 1 + int k)" using Suc by blast
  finally show ?case by (simp add: ac_simps)
qed

lemma strip_zero_bits_Fin:
  "m \<noteq> 0 \<Longrightarrow> \<exists>m' k. strip_zero_bits s m e = Fin s m' (e + int k) \<and> m' * 2 ^ k = m \<and> m' \<noteq> 0"
proof (induction s m e rule: strip_zero_bits.induct)
  case (1 s m e)
  show ?case
  proof (cases "even m")
    case True
    then have half: "m div 2 \<noteq> 0" using "1.prems" by auto
    from "1.IH" True "1.prems" half obtain m' k
      where "strip_zero_bits s (m div 2) (e + 1) = Fin s m' (e + 1 + int k)"
        and "m' * 2 ^ k = m div 2" and "m' \<noteq> 0"
      by blast
    note found = this
    have "strip_zero_bits s m e = strip_zero_bits s (m div 2) (e + 1)"
      using True "1.prems" by (subst strip_zero_bits.simps) simp
    then have "strip_zero_bits s m e = Fin s m' (e + int (Suc k))"
      using found(1) by (simp add: ac_simps)
    moreover have "m' * 2 ^ Suc k = m"
    proof -
      have "m' * 2 ^ Suc k = 2 * (m' * 2 ^ k)" by simp
      also have "\<dots> = 2 * (m div 2)" using found(2) by simp
      also have "\<dots> = m" using True by simp
      finally show ?thesis .
    qed
    ultimately show ?thesis using found(3) by blast
  next
    case False
    then have "strip_zero_bits s m e = Fin s m (e + int 0)"
      by (subst strip_zero_bits.simps) simp
    then show ?thesis using "1.prems" by (intro exI [of _ m] exI [of _ 0]) simp
  qed
qed

lemma round_f64_exact:
  assumes "m \<noteq> 0" and "m * 2 ^ k < 2 ^ 53"
  shows "round_f64 s m (int k) = strip_zero_bits s (m * 2 ^ k) 0"
proof -
  have "(2::nat) ^ k \<le> m * 2 ^ k" using assms(1) by (cases m) simp_all
  from this assms(2) have "(2::nat) ^ k < 2 ^ 53" by (rule le_less_trans)
  then have k: "k < 53" by (rule power_less_imp_less_exp [rotated]) simp
  then have "(2::nat) ^ (53 - k) * 2 ^ k = 2 ^ 53"
    by (simp add: power_add [symmetric])
  then have "m * 2 ^ k < (2::nat) ^ (53 - k) * 2 ^ k"
    using assms(2) by simp
  then have "m < 2 ^ (53 - k)" by simp
  then have b: "bit_length m \<le> 53 - k" by (rule bit_length_bound)
  then have "max (int k + int (bit_length m) - 53) (- 1074) \<le> int k" using k by simp
  moreover have "\<not> 1024 < int k + int (bit_length m)" using b k by simp
  ultimately have "round_f64 s m (int k) = strip_zero_bits s m (int k)"
    using assms(1) by (simp add: round_f64_def finish_f64_def Let_def)
  then show ?thesis using assms(1) by (simp add: strip_zero_bits_shift)
qed

lemma f64_of_int_nonzero:
  assumes "z \<noteq> 0" and "\<bar>z\<bar> < 2 ^ 53"
  shows "f64_of_int z = strip_zero_bits (z < 0) (nat \<bar>z\<bar>) 0"
proof -
  have "nat \<bar>z\<bar> \<noteq> 0" using assms(1) by simp
  moreover have "nat \<bar>z\<bar> * 2 ^ 0 < 2 ^ 53" using assms(2) by (simp add: nat_less_iff)
  ultimately have "round_f64 (z < 0) (nat \<bar>z\<bar>) (int 0) = strip_zero_bits (z < 0) (nat \<bar>z\<bar> * 2 ^ 0) 0"
    by (rule round_f64_exact)
  then show ?thesis by (simp add: f64_of_int_def)
qed

lemma f64_of_int_zero: "f64_of_int 0 = Fin False 0 0"
  by (simp add: f64_of_int_def round_f64_def finish_f64_def bit_length.simps Let_def)

lemma f64_of_int_Fin:
  assumes "z \<noteq> 0" and "\<bar>z\<bar> < 2 ^ 53"
  shows "\<exists>m k. f64_of_int z = Fin (z < 0) m (int k) \<and> with_sign (z < 0) (m * 2 ^ k) = z \<and> m \<noteq> 0"
proof -
  have "nat \<bar>z\<bar> \<noteq> 0" using assms(1) by simp
  from strip_zero_bits_Fin [OF this, of "z < 0" 0] obtain m k
    where "strip_zero_bits (z < 0) (nat \<bar>z\<bar>) 0 = Fin (z < 0) m (int k)"
      and "m * 2 ^ k = nat \<bar>z\<bar>" and "m \<noteq> 0"
    by auto
  then show ?thesis using assms by (auto simp: f64_of_int_nonzero with_sign_def)
qed

lemma f64_add_Fin_exact:
  fixes x y :: int
  assumes "m1 \<noteq> 0" and "m2 \<noteq> 0"
    and x: "x = with_sign s1 (m1 * 2 ^ k1)" and y: "y = with_sign s2 (m2 * 2 ^ k2)"
    and "\<bar>x + y\<bar> < 2 ^ 53"
  shows "f64_add (Fin s1 m1 (int k1)) (Fin s2 m2 (int k2)) = f64_of_int (x + y)"
proof -
  define k where "k = min k1 k2"
  define v where "v = with_sign s1 (m1 * 2 ^ (k1 - k)) + with_sign s2 (m2 * 2 ^ (k2 - k))"
  have e: "min (int k1) (int k2) = int k" by (simp add: k_def)
  have d1: "nat (int k1 - int k) = k1 - k" and d2: "nat (int k2 - int k) = k2 - k"
    by (simp_all add: k_def)
  have p1: "(2::int) ^ (k1 - k) * 2 ^ k = 2 ^ k1" and p2: "(2::int) ^ (k2 - k) * 2 ^ k = 2 ^ k2"
    by (simp_all add: k_def power_add [symmetric])
  have vxy: "v * 2 ^ k = x + y"
    using p1 p2 by (simp add: v_def x y with_sign_def algebra_simps)
  have add: "f64_add (Fin s1 m1 (int k1)) (Fin s2 m2 (int k2)) =
               (if v = 0 then Fin (s1 \<and> s2) 0 0 else round_f64 (v < 0) (nat \<bar>v\<bar>) (int k))"
    by (simp add: e d1 d2 v_def Let_def)
  show ?thesis
  proof (cases "v = 0")
    case True
    then have "x + y = 0" using vxy by simp
    moreover have "\<not> (s1 \<and> s2)"
    proof
      assume "s1 \<and> s2"
      then have "x < 0" and "y < 0" using assms(1,2) by (simp_all add: x y with_sign_def)
      then show False using \<open>x + y = 0\<close> by simp
    qed
    ultimately show ?thesis using add True by (simp add: f64_of_int_zero)
  next
    case False
    then have nz: "x + y \<noteq> 0" using vxy by auto
    have sgn: "(v < 0) = (x + y < 0)"
      by (simp add: vxy [symmetric] mult_less_0_iff)
    have "\<bar>x + y\<bar> = \<bar>v\<bar> * 2 ^ k"
      by (simp add: vxy [symmetric] abs_mult)
    then have mag: "nat \<bar>v\<bar> * 2 ^ k = nat \<bar>x + y\<bar>"
      by (simp add: nat_mult_distrib nat_power_eq)
    have "nat \<bar>v\<bar> \<noteq> 0" using False by simp
    moreover have "nat \<bar>v\<bar> * 2 ^ k < 2 ^ 53"
      using mag assms(5) by (simp add: nat_less_iff)
    ultimately have "round_f64 (v < 0) (nat \<bar>v\<bar>) (int k)
                       = strip_zero_bits (v < 0) (nat \<bar>v\<bar> * 2 ^ k) 0"
      by (rule round_f64_exact)
    also have "\<dots> = f64_of_int (x + y)"
      using nz assms(5) by (simp add: mag sgn f64_of_int_nonzero)
    finally show ?thesis using add False by simp
  qed
qed


lemma f64_add_zero_left:
  assumes "m \<noteq> 0"
  shows "f64_add (Fin s 0 0) (Fin t m (int k)) = f64_of_int (with_sign t (m * 2 ^ k))"
  using assms by (simp add: f64_of_int_def Let_def with_sign_def)

lemma f64_add_zero_right:
  assumes "m \<noteq> 0"
  shows "f64_add (Fin t m (int k)) (Fin s 0 0) = f64_of_int (with_sign t (m * 2 ^ k))"
  using assms by (simp add: f64_of_int_def Let_def with_sign_def)

lemma f64_add_ints:
  assumes "\<bar>x\<bar> < 2 ^ 53" and "\<bar>y\<bar> < 2 ^ 53" and "\<bar>x + y\<bar> < 2 ^ 53"
  shows "f64_add (f64_of_int x) (f64_of_int y) = f64_of_int (x + y)"
proof (cases "x = 0")
  case True
  show ?thesis
  proof (cases "y = 0")
    case True
    then show ?thesis using \<open>x = 0\<close> by (simp add: f64_of_int_zero with_sign_def)
  next
    case False
    from f64_of_int_Fin [OF False assms(2)] obtain m k
      where y: "f64_of_int y = Fin (y < 0) m (int k)" "with_sign (y < 0) (m * 2 ^ k) = y"
        "m \<noteq> 0"
      by blast
    have "f64_add (f64_of_int x) (f64_of_int y) = f64_add (Fin False 0 0) (Fin (y < 0) m (int k))"
      by (simp only: True f64_of_int_zero y(1))
    also have "\<dots> = f64_of_int (with_sign (y < 0) (m * 2 ^ k))"
      using y(3) by (rule f64_add_zero_left)
    also have "\<dots> = f64_of_int (x + y)" by (simp only: y(2) True add_0)
    finally show ?thesis .
  qed
next
  case False
  from f64_of_int_Fin [OF False assms(1)] obtain m1 k1
    where x: "f64_of_int x = Fin (x < 0) m1 (int k1)" "with_sign (x < 0) (m1 * 2 ^ k1) = x" "m1 \<noteq> 0"
    by blast
  show ?thesis
  proof (cases "y = 0")
    case True
    have "f64_add (f64_of_int x) (f64_of_int y) = f64_add (Fin (x < 0) m1 (int k1)) (Fin False 0 0)"
      by (simp only: True f64_of_int_zero x(1))
    also have "\<dots> = f64_of_int (with_sign (x < 0) (m1 * 2 ^ k1))"
      using x(3) by (rule f64_add_zero_right)
    also have "\<dots> = f64_of_int (x + y)" by (simp only: x(2) True add_0_right)
    finally show ?thesis .
  next
    case False
    from f64_of_int_Fin [OF False assms(2)] obtain m2 k2
      where y: "f64_of_int y = Fin (y < 0) m2 (int k2)" "with_sign (y < 0) (m2 * 2 ^ k2) = y"
        "m2 \<noteq> 0"
      by blast
    show ?thesis
      using f64_add_Fin_exact [OF x(3) y(3) x(2) [symmetric] y(2) [symmetric] assms(3)]
      by (simp only: x(1) y(1))
  qed
qed

lemma f64_sub_ints:
  assumes "\<bar>x\<bar> < 2 ^ 53" and "\<bar>y\<bar> < 2 ^ 53" and "\<bar>x - y\<bar> < 2 ^ 53"
  shows "f64_sub (f64_of_int x) (f64_of_int y) = f64_of_int (x - y)"
proof (cases "y = 0")
  case True
  have neg: "f64_neg (f64_of_int y) = Fin True 0 0" using True by (simp add: f64_of_int_zero)
  show ?thesis
  proof (cases "x = 0")
    case True
    then show ?thesis using \<open>y = 0\<close> by (simp add: f64_sub_def f64_of_int_zero with_sign_def)
  next
    case False
    from f64_of_int_Fin [OF False assms(1)] obtain m k
      where x: "f64_of_int x = Fin (x < 0) m (int k)" "with_sign (x < 0) (m * 2 ^ k) = x"
        "m \<noteq> 0"
      by blast
    have "f64_sub (f64_of_int x) (f64_of_int y) = f64_add (Fin (x < 0) m (int k)) (Fin True 0 0)"
      by (simp only: f64_sub_def neg x(1))
    also have "\<dots> = f64_of_int (with_sign (x < 0) (m * 2 ^ k))"
      using x(3) by (rule f64_add_zero_right)
    also have "\<dots> = f64_of_int (x - y)" by (simp only: x(2) True diff_0_right)
    finally show ?thesis .
  qed
next
  case False
  from f64_of_int_Fin [OF False assms(2)] obtain m2 k2
    where y: "f64_of_int y = Fin (y < 0) m2 (int k2)" "with_sign (y < 0) (m2 * 2 ^ k2) = y"
      "m2 \<noteq> 0"
    by blast
  have neg: "f64_neg (f64_of_int y) = Fin (\<not> y < 0) m2 (int k2)" by (simp add: y(1))
  have my: "- y = with_sign (\<not> y < 0) (m2 * 2 ^ k2)" using y(2) by (auto simp: with_sign_def)
  show ?thesis
  proof (cases "x = 0")
    case True
    have "f64_sub (f64_of_int x) (f64_of_int y)
            = f64_add (Fin False 0 0) (Fin (\<not> y < 0) m2 (int k2))"
      by (simp only: f64_sub_def neg True f64_of_int_zero)
    also have "\<dots> = f64_of_int (with_sign (\<not> y < 0) (m2 * 2 ^ k2))"
      using y(3) by (rule f64_add_zero_left)
    also have "\<dots> = f64_of_int (x - y)" by (simp only: my [symmetric] True diff_0)
    finally show ?thesis .
  next
    case False
    from f64_of_int_Fin [OF False assms(1)] obtain m1 k1
      where x: "f64_of_int x = Fin (x < 0) m1 (int k1)" "with_sign (x < 0) (m1 * 2 ^ k1) = x"
        "m1 \<noteq> 0"
      by blast
    have "\<bar>x + - y\<bar> < 2 ^ 53" using assms(3) by simp
    from f64_add_Fin_exact [OF x(3) y(3) x(2) [symmetric] my this]
    have "f64_add (Fin (x < 0) m1 (int k1)) (Fin (\<not> y < 0) m2 (int k2)) = f64_of_int (x - y)"
      by simp
    then show ?thesis by (simp only: f64_sub_def x(1) neg)
  qed
qed

lemma int_round_trip:
  assumes "\<bar>x\<bar> < 2 ^ 53" and "\<bar>y\<bar> < 2 ^ 53" and "\<bar>x + y\<bar> < 2 ^ 53"
  shows "f64_sub (f64_add (f64_of_int x) (f64_of_int y)) (f64_of_int y) = f64_of_int x"
proof -
  have "f64_add (f64_of_int x) (f64_of_int y) = f64_of_int (x + y)"
    using assms by (rule f64_add_ints)
  moreover have "f64_sub (f64_of_int (x + y)) (f64_of_int y) = f64_of_int (x + y - y)"
    using assms by (intro f64_sub_ints) simp_all
  ultimately show ?thesis by simp
qed

text \<open>
  The double of an integer is never the negative zero, and the negative zero does not come
  back from adding and subtracting an integer: \<open>(-0 + y) - y\<close> is \<open>+0\<close>. A sum that
  rounds can still come back: \<open>1 + (-2^-60)\<close> rounds to \<open>1\<close>, and
  \<open>(1 + (-2^-60)) - (-2^-60)\<close> is \<open>1\<close>.
\<close>

lemma f64_of_int_never_negative_zero:
  assumes "\<bar>x\<bar> < 2 ^ 53"
  shows "f64_of_int x \<noteq> Fin True 0 0"
proof (cases "x = 0")
  case True
  then show ?thesis by (simp add: f64_of_int_zero)
next
  case False
  from f64_of_int_Fin [OF False assms] obtain m k
    where "f64_of_int x = Fin (x < 0) m (int k)" and "m \<noteq> 0"
    by blast
  then show ?thesis by simp
qed

lemma negative_zero_lost:
  assumes "\<bar>y\<bar> < 2 ^ 53"
  shows "f64_sub (f64_add (Fin True 0 0) (f64_of_int y)) (f64_of_int y) = Fin False 0 0"
proof (cases "y = 0")
  case True
  then show ?thesis by (simp add: f64_of_int_zero f64_sub_def with_sign_def)
next
  case False
  from f64_of_int_Fin [OF False assms] obtain m k
    where y: "f64_of_int y = Fin (y < 0) m (int k)" "with_sign (y < 0) (m * 2 ^ k) = y" "m \<noteq> 0"
    by blast
  have "f64_add (Fin True 0 0) (f64_of_int y) = f64_add (Fin True 0 0) (Fin (y < 0) m (int k))"
    by (simp only: y(1))
  also have "\<dots> = f64_of_int (with_sign (y < 0) (m * 2 ^ k))"
    using y(3) by (rule f64_add_zero_left)
  also have "\<dots> = f64_of_int y" by (simp only: y(2))
  finally have "f64_sub (f64_add (Fin True 0 0) (f64_of_int y)) (f64_of_int y)
                  = f64_sub (f64_of_int y) (f64_of_int y)"
    by (rule arg_cong)
  also have "\<dots> = f64_of_int (y - y)" using assms by (intro f64_sub_ints) simp_all
  finally show ?thesis by (simp add: f64_of_int_zero)
qed

lemma f64_check_rounded_sum_returns:
  "f64_add (f64_of_int 1) (Fin True 1 (- 60)) = f64_of_int 1
   \<and> f64_sub (f64_add (f64_of_int 1) (Fin True 1 (- 60))) (Fin True 1 (- 60)) = f64_of_int 1"
  by (simp add: f64_eval cong: let_weak_cong)

section \<open>Loops that fill a buffer\<close>

text \<open>
  A \<^verbatim>\<open>for\<close> loop that stores \<open>val j\<close> at index \<open>idx j\<close> leaves the length alone, leaves
  every index it does not name alone, and, when no two iterations name the same index,
  leaves \<open>val j\<close> at \<open>idx j\<close>. The same for two nested loops.
\<close>

lemma flat_index_bound: "i < r \<Longrightarrow> j < c \<Longrightarrow> i * c + j < r * (c::nat)"
proof -
  assume i: "i < r" and j: "j < c"
  have "i * c + j < i * c + c" using j by simp
  also have "\<dots> = Suc i * c" by simp
  also have "\<dots> \<le> r * c" using i by (intro mult_le_mono1) simp
  finally show ?thesis .
qed

lemma flat_index_inj:
  assumes "j < c" "j' < c" "i * c + j = i' * c + (j'::nat)"
  shows "i = i' \<and> j = j'"
proof -
  have "(i * c + j) div c = i" and "(i * c + j) mod c = j" using assms(1) by simp_all
  moreover have "(i' * c + j') div c = i'" and "(i' * c + j') mod c = j'"
    using assms(2) by simp_all
  ultimately show ?thesis using assms(3) by metis
qed

lemma update_loop_length:
  "length (foldl (\<lambda>res j. res[idx j := val j]) r [0..<n]) = length r"
  by (induction n) simp_all

lemma update_loop_other:
  "(\<forall>j<n. idx j \<noteq> p) \<Longrightarrow> foldl (\<lambda>res j. res[idx j := val j]) r [0..<n] ! p = r ! p"
  by (induction n) simp_all

lemma update_loop_written:
  assumes "j < n" "idx j < length r" "\<forall>j'<n. j' \<noteq> j \<longrightarrow> idx j' \<noteq> idx j"
  shows "foldl (\<lambda>res j. res[idx j := val j]) r [0..<n] ! idx j = val j"
  using assms
proof (induction n)
  case 0
  then show ?case by simp
next
  case (Suc n)
  show ?case
  proof (cases "j = n")
    case True
    then show ?thesis using Suc.prems(2) by (simp add: update_loop_length)
  next
    case False
    then have "j < n" using Suc.prems(1) by simp
    moreover have "\<forall>j'<n. j' \<noteq> j \<longrightarrow> idx j' \<noteq> idx j" using Suc.prems(3) by simp
    ultimately have "foldl (\<lambda>res j. res[idx j := val j]) r [0..<n] ! idx j = val j"
      using Suc.IH Suc.prems(2) by blast
    moreover have "idx n \<noteq> idx j" using Suc.prems(3) False by simp
    ultimately show ?thesis by simp
  qed
qed

lemma nested_loop_length:
  "length (foldl (\<lambda>res i. foldl (\<lambda>res j. res[idx i j := val i j]) res [0..<c]) r [0..<n])
     = length r"
  by (induction n) (simp_all add: update_loop_length)

lemma nested_loop_written:
  assumes "i < n" "j < c" "idx i j < length r"
    and "\<forall>i'<n. \<forall>j'<c. idx i' j' = idx i j \<longrightarrow> i' = i \<and> j' = j"
  shows "foldl (\<lambda>res i. foldl (\<lambda>res j. res[idx i j := val i j]) res [0..<c]) r [0..<n] ! idx i j
           = val i j"
  using assms
proof (induction n)
  case 0
  then show ?case by simp
next
  case (Suc n)
  let ?prev = "foldl (\<lambda>res i. foldl (\<lambda>res j. res[idx i j := val i j]) res [0..<c]) r [0..<n]"
  have step: "foldl (\<lambda>res i. foldl (\<lambda>res j. res[idx i j := val i j]) res [0..<c]) r [0..<Suc n]
                = foldl (\<lambda>res j. res[idx n j := val n j]) ?prev [0..<c]"
    by simp
  show ?case
  proof (cases "i = n")
    case True
    have "idx n j < length ?prev" using Suc.prems(3) True by (simp add: nested_loop_length)
    moreover have "\<forall>j'<c. j' \<noteq> j \<longrightarrow> idx n j' \<noteq> idx n j"
      using Suc.prems(4) True by auto
    ultimately have "foldl (\<lambda>res j. res[idx n j := val n j]) ?prev [0..<c] ! idx n j = val n j"
      using Suc.prems(2) by (rule update_loop_written [where idx = "idx n" and val = "val n", rotated])
    then show ?thesis using True step by simp
  next
    case False
    then have lt: "i < n" using Suc.prems(1) by simp
    have "\<forall>j'<c. idx n j' \<noteq> idx i j" using Suc.prems(4) False by auto
    then have "foldl (\<lambda>res j. res[idx n j := val n j]) ?prev [0..<c] ! idx i j = ?prev ! idx i j"
      by (rule update_loop_other)
    moreover have "\<forall>i'<n. \<forall>j'<c. idx i' j' = idx i j \<longrightarrow> i' = i \<and> j' = j"
      using Suc.prems(4) by (meson less_SucI)
    then have "?prev ! idx i j = val i j"
      using Suc.IH lt Suc.prems(2,3) by blast
    ultimately show ?thesis using step by simp
  qed
qed

text \<open>
  \<^verbatim>\<open>forEach\<close> with an assignment to \<^verbatim>\<open>this.array[i]\<close> reads each element before it is
  overwritten, so it is a map over the old array.
\<close>

lemma forEach_prefix:
  "n \<le> length xs \<Longrightarrow>
   foldl (\<lambda>ys i. ys[i := f (elem ys i) i]) xs [0..<n]
     = map (\<lambda>i. f (xs ! i) i) [0..<n] @ drop n xs"
proof (induction n)
  case 0
  then show ?case by simp
next
  case (Suc n)
  then have n: "n < length xs" by simp
  let ?ys = "map (\<lambda>i. f (xs ! i) i) [0..<n] @ drop n xs"
  have prev: "foldl (\<lambda>ys i. ys[i := f (elem ys i) i]) xs [0..<n] = ?ys"
    using Suc by simp
  have "elem ?ys n = xs ! n" using n by (simp add: elem_def nth_append)
  moreover have "?ys[n := v] = map (\<lambda>i. f (xs ! i) i) [0..<n] @ v # drop (Suc n) xs" for v
    using n by (simp add: Cons_nth_drop_Suc[symmetric] list_update_append)
  ultimately show ?case using prev by simp
qed

lemma forEach_assign_map: "forEach_assign f xs = map (\<lambda>i. f (xs ! i) i) [0..<length xs]"
  by (simp add: forEach_assign_def forEach_prefix)

lemma forEach_assign_length: "length (forEach_assign f xs) = length xs"
  by (simp add: forEach_assign_map)

lemma forEach_assign_nth: "i < length xs \<Longrightarrow> forEach_assign f xs ! i = f (xs ! i) i"
  by (simp add: forEach_assign_map)

lemma forEach_assign_pointwise: "forEach_assign (\<lambda>x i. g x) xs = map g xs"
  by (intro nth_equalityI) (simp_all add: forEach_assign_map)

text \<open>
  When the argument is the receiver itself (\<^verbatim>\<open>m.add(m)\<close>), \<^verbatim>\<open>a.array[i]\<close> is read from
  the array being updated, at an index not yet overwritten: the result is that of the
  call on a copy of the receiver.
\<close>

lemma forEach_assign_receiver_as_argument:
  "forEach_assign (\<lambda>x i. op x x) xs = forEach_assign (\<lambda>x i. op x (elem xs i)) xs"
  by (simp add: forEach_assign_map elem_def)

lemma multiply_result_loops:
  "multiply_result self a =
     foldl (\<lambda>res i. foldl (\<lambda>res j. res[i * columns a + j := multiply_value self a (i * rows a) j])
                      res [0..<columns a])
       (replicate (rows self * columns a) f64_zero) [0..<rows self]"
proof -
  have "multiply_row self a =
          (\<lambda>res i. foldl (\<lambda>res j. res[i * columns a + j := multiply_value self a (i * rows a) j])
                      res [0..<columns a])"
    by (intro ext) (simp add: multiply_row_def Let_def)
  then show ?thesis by (simp add: multiply_result_def)
qed

lemma multiply_result_length: "length (multiply_result self a) = rows self * columns a"
  by (simp add: multiply_result_loops nested_loop_length)

lemma multiply_result_nth:
  assumes "i < rows self" "j < columns a"
  shows "multiply_result self a ! (i * columns a + j) = multiply_value self a (i * rows a) j"
proof -
  have "i * columns a + j < length (replicate (rows self * columns a) f64_zero)"
    using assms by (simp add: flat_index_bound)
  moreover have "\<forall>i'<rows self. \<forall>j'<columns a.
      i' * columns a + j' = i * columns a + j \<longrightarrow> i' = i \<and> j' = j"
    using assms(2) flat_index_inj by blast
  ultimately show ?thesis
    unfolding multiply_result_loops
    using assms
    by (intro nested_loop_written
          [where idx = "\<lambda>i j. i * columns a + j"
             and val = "\<lambda>i j. multiply_value self a (i * rows a) j"])
qed

lemma transpose_result_loops:
  "transpose_result self =
     foldl (\<lambda>res i. foldl (\<lambda>res j. res[j * rows self + i := elem (array self) (i * columns self + j)])
                      res [0..<columns self])
       (replicate (rows self * columns self) f64_zero) [0..<rows self]"
proof -
  have "transpose_row self =
          (\<lambda>res i. foldl (\<lambda>res j. res[j * rows self + i := elem (array self) (i * columns self + j)])
                      res [0..<columns self])"
    by (intro ext) (simp add: transpose_row_def)
  then show ?thesis by (simp add: transpose_result_def)
qed

lemma transpose_result_length: "length (transpose_result self) = rows self * columns self"
  by (simp add: transpose_result_loops nested_loop_length)

lemma transpose_result_nth:
  assumes "i < rows self" "j < columns self"
  shows "transpose_result self ! (j * rows self + i) = elem (array self) (i * columns self + j)"
proof -
  have "j * rows self + i < columns self * rows self"
    using assms by (simp add: flat_index_bound)
  then have "j * rows self + i < length (replicate (rows self * columns self) f64_zero)"
    by (simp add: mult.commute)
  moreover have "\<forall>i'<rows self. \<forall>j'<columns self.
      j' * rows self + i' = j * rows self + i \<longrightarrow> i' = i \<and> j' = j"
    using assms(1) flat_index_inj by blast
  ultimately show ?thesis
    unfolding transpose_result_loops
    using assms
    by (intro nested_loop_written
          [where idx = "\<lambda>i j. j * rows self + i"
             and val = "\<lambda>i j. elem (array self) (i * columns self + j)"])
qed

lemma clone_copy: "clone M = Returned M"
  by (simp add: clone_def constructor_def)

text \<open>
  Every operation but \<^verbatim>\<open>set\<close> keeps \<open>length array = rows * columns\<close>, whether it returns
  or throws; \<^verbatim>\<open>set\<close> keeps it when the source has it.
\<close>

lemma shape_ok_kept:
  "shape_ok (constructor r c)"
  "shape_ok self \<Longrightarrow> shape_ok (receiver (clone self))"
  "shape_ok self \<Longrightarrow> shape_ok (receiver (map_M predicate self))"
  "shape_ok self \<Longrightarrow> shape_ok (receiver (randomize random self))"
  "shape_ok self \<Longrightarrow> shape_ok (receiver (add self a))"
  "shape_ok self \<Longrightarrow> shape_ok (receiver (subtract self a))"
  "shape_ok self \<Longrightarrow> shape_ok (receiver (hadamardProduct self a))"
  "shape_ok self \<Longrightarrow> shape_ok (receiver (multiplyByScalar self s))"
  "shape_ok self \<Longrightarrow> shape_ok (receiver (multiply self a))"
  "shape_ok (receiver (transpose_M self))"
  "shape_ok self \<Longrightarrow> shape_ok a \<Longrightarrow> shape_ok (receiver (set_M self (FromMatrix a)))"
  "length xs = rows self * columns self \<Longrightarrow> shape_ok (receiver (set_M self (FromSequence xs)))"
  by (simp_all add: shape_ok_def constructor_def clone_def map_M_def randomize_def and_then_def
        add_def subtract_def hadamardProduct_def multiplyByScalar_def multiply_def
        transpose_M_def forEach_assign_length multiply_result_length transpose_result_length
        mult.commute)

section \<open>The claims\<close>

text \<open>
  C1. For matrices \<open>self\<close> and \<open>a\<close> with \<open>self.columns = a.rows\<close>, \<^verbatim>\<open>multiply(a)\<close> returns,
  the receiver keeps its rows, takes the columns of \<open>a\<close> and a buffer of
  \<open>self.rows * a.columns\<close> elements, and the element at flat index \<open>i * a.columns + j\<close> is
  the sum of \<open>self[i * columns + k] * a[k * a.columns + j]\<close> for \<open>k\<close> from \<open>0\<close> to
  \<open>columns - 1\<close> (the old columns of \<open>self\<close>), added to \<open>+0\<close> one after the other in
  increasing \<open>k\<close>.
\<close>

theorem multiply_computes_product:
  assumes "columns self = rows a"
  shows "\<exists>m. multiply self a = Returned m
           \<and> rows m = rows self \<and> columns m = columns a
           \<and> length (array m) = rows self * columns a
           \<and> (\<forall>i<rows self. \<forall>j<columns a.
                 array m ! (i * columns a + j) =
                   foldl (\<lambda>value k.
                            f64_add value
                              (f64_mul (elem (array self) (i * columns self + k))
                                       (elem (array a) (k * columns a + j))))
                     f64_zero [0..<columns self])"
proof -
  let ?m = "self\<lparr>columns := columns a, array := multiply_result self a\<rparr>"
  have "multiply self a = Returned ?m"
    using assms by (simp add: multiply_def)
  moreover have "\<forall>i<rows self. \<forall>j<columns a.
      array ?m ! (i * columns a + j) =
        foldl (\<lambda>value k.
                 f64_add value
                   (f64_mul (elem (array self) (i * columns self + k))
                            (elem (array a) (k * columns a + j))))
          f64_zero [0..<columns self]"
    using assms by (simp add: multiply_result_nth multiply_value_def)
  ultimately show ?thesis
    by (intro exI [of _ ?m]) (simp add: multiply_result_length)
qed

text \<open>
  At the matrices \<open>[[1,2,3],[4,5,6]]\<close> and \<open>[[7,8],[9,10],[11,12]]\<close>: the product is
  \<open>[[58,64],[139,154]]\<close>, of shape 2 x 2.
\<close>

theorem multiply_computes_product_witness:
  "columns \<lparr>array = map f64_of_int [1, 2, 3, 4, 5, 6], rows = 2, columns = 3\<rparr>
     = rows \<lparr>array = map f64_of_int [7, 8, 9, 10, 11, 12], rows = 3, columns = 2\<rparr>
   \<and> multiply \<lparr>array = map f64_of_int [1, 2, 3, 4, 5, 6], rows = 2, columns = 3\<rparr>
               \<lparr>array = map f64_of_int [7, 8, 9, 10, 11, 12], rows = 3, columns = 2\<rparr>
       = Returned \<lparr>array = map f64_of_int [58, 64, 139, 154], rows = 2, columns = 2\<rparr>"
proof -
  let ?A = "\<lparr>array = map f64_of_int [1, 2, 3, 4, 5, 6], rows = 2, columns = 3\<rparr>"
  let ?B = "\<lparr>array = map f64_of_int [7, 8, 9, 10, 11, 12], rows = 3, columns = 2\<rparr>"
  have h: "columns ?A = rows ?B" by simp
  from multiply_computes_product [OF h]
  obtain m where ret: "multiply ?A ?B = Returned m"
    and shape: "rows m = rows ?A" "columns m = columns ?B"
    and len: "length (array m) = rows ?A * columns ?B"
    and el: "\<forall>i<rows ?A. \<forall>j<columns ?B.
               array m ! (i * columns ?B + j) =
                 foldl (\<lambda>value k.
                          f64_add value
                            (f64_mul (elem (array ?A) (i * columns ?A + k))
                                     (elem (array ?B) (k * columns ?B + j))))
                   f64_zero [0..<columns ?A]"
    by blast
  have e0: "array m ! 0 = f64_of_int 58"
    using el [rule_format, of 0 0] by (simp add: elem_def f64_eval cong: let_weak_cong)
  have e1: "array m ! 1 = f64_of_int 64"
    using el [rule_format, of 0 1] by (simp add: elem_def f64_eval cong: let_weak_cong)
  have e2: "array m ! 2 = f64_of_int 139"
    using el [rule_format, of 1 0] by (simp add: elem_def f64_eval cong: let_weak_cong)
  have e3: "array m ! 3 = f64_of_int 154"
    using el [rule_format, of 1 1] by (simp add: elem_def f64_eval cong: let_weak_cong)
  have "length (array m) = 4" using len by simp
  then have "array m = map f64_of_int [58, 64, 139, 154]"
    using e0 e1 e2 e3 by (auto simp: eval_nat_numeral length_Suc_conv)
  then have "m = \<lparr>array = map f64_of_int [58, 64, 139, 154], rows = 2, columns = 2\<rparr>"
    using shape by (cases m) simp
  then show ?thesis using ret by simp
qed

text \<open>
  C2. \<^verbatim>\<open>transpose()\<close> returns for every matrix; the new buffer has \<open>rows * columns\<close>
  elements, its element at \<open>j * rows + i\<close> is the old element read at \<open>i * columns + j\<close>
  for all \<open>i < rows\<close>, \<open>j < columns\<close>, and the rows and columns fields are swapped. For a
  matrix whose buffer has \<open>rows * columns\<close> elements, the new buffer has the length of the
  old one and every read is inside the old buffer.
\<close>

theorem transpose_swaps:
  "\<exists>m. transpose_M self = Returned m
     \<and> rows m = columns self \<and> columns m = rows self
     \<and> length (array m) = rows self * columns self
     \<and> (\<forall>i<rows self. \<forall>j<columns self.
           array m ! (j * rows self + i) = elem (array self) (i * columns self + j))
     \<and> (shape_ok self \<longrightarrow>
           length (array m) = length (array self)
           \<and> (\<forall>i<rows self. \<forall>j<columns self.
                 array m ! (j * rows self + i) = array self ! (i * columns self + j)))"
proof -
  let ?m = "self\<lparr>rows := columns self, columns := rows self, array := transpose_result self\<rparr>"
  have "transpose_M self = Returned ?m"
    by (simp add: transpose_M_def)
  moreover have "\<forall>i<rows self. \<forall>j<columns self.
      array ?m ! (j * rows self + i) = elem (array self) (i * columns self + j)"
    by (simp add: transpose_result_nth)
  moreover have "\<forall>i<rows self. \<forall>j<columns self.
      elem (array self) (i * columns self + j) = array self ! (i * columns self + j)"
    if "shape_ok self"
    using that by (simp add: elem_def shape_ok_def flat_index_bound)
  ultimately show ?thesis
    by (intro exI [of _ ?m]) (simp add: transpose_result_length shape_ok_def)
qed

text \<open>At \<open>[[1,2,3],[4,5,6]]\<close>: the result is \<open>[[1,4],[2,5],[3,6]]\<close>, of shape 3 x 2.\<close>

theorem transpose_swaps_witness:
  "shape_ok \<lparr>array = map f64_of_int [1, 2, 3, 4, 5, 6], rows = 2, columns = 3\<rparr>
   \<and> transpose_M \<lparr>array = map f64_of_int [1, 2, 3, 4, 5, 6], rows = 2, columns = 3\<rparr>
       = Returned \<lparr>array = map f64_of_int [1, 4, 2, 5, 3, 6], rows = 3, columns = 2\<rparr>"
proof -
  let ?A = "\<lparr>array = map f64_of_int [1, 2, 3, 4, 5, 6], rows = 2, columns = 3\<rparr>"
  have ok: "shape_ok ?A" by (simp add: shape_ok_def)
  from transpose_swaps [of ?A]
  obtain m where ret: "transpose_M ?A = Returned m"
    and shape: "rows m = columns ?A" "columns m = rows ?A"
    and wf: "shape_ok ?A \<longrightarrow>
               length (array m) = length (array ?A)
               \<and> (\<forall>i<rows ?A. \<forall>j<columns ?A.
                     array m ! (j * rows ?A + i) = array ?A ! (i * columns ?A + j))"
    by blast
  from wf ok have len: "length (array m) = 6"
    and el: "\<forall>i<rows ?A. \<forall>j<columns ?A.
               array m ! (j * rows ?A + i) = array ?A ! (i * columns ?A + j)"
    by simp_all
  have "array m ! 0 = f64_of_int 1" using el [rule_format, of 0 0] by simp
  moreover have "array m ! 1 = f64_of_int 4" using el [rule_format, of 1 0] by simp
  moreover have "array m ! 2 = f64_of_int 2" using el [rule_format, of 0 1] by simp
  moreover have "array m ! 3 = f64_of_int 5" using el [rule_format, of 1 1] by simp
  moreover have "array m ! 4 = f64_of_int 3" using el [rule_format, of 0 2] by simp
  moreover have "array m ! 5 = f64_of_int 6" using el [rule_format, of 1 2] by simp
  ultimately have "array m = map f64_of_int [1, 4, 2, 5, 3, 6]"
    using len by (auto simp: eval_nat_numeral length_Suc_conv)
  then have "m = \<lparr>array = map f64_of_int [1, 4, 2, 5, 3, 6], rows = 3, columns = 2\<rparr>"
    using shape by (cases m) simp
  then show ?thesis using ret ok by simp
qed

text \<open>
  C3. For matrices \<open>self\<close> and \<open>a\<close> of the same rows and columns, \<^verbatim>\<open>add(a)\<close>,
  \<^verbatim>\<open>subtract(a)\<close> and \<^verbatim>\<open>hadamardProduct(a)\<close> return the receiver with rows and columns
  as before and with, at every flat index \<open>i\<close> of its buffer, the old element at \<open>i\<close>
  combined with the element of \<open>a\<close> at \<open>i\<close> by \<open>+\<close>, \<open>-\<close>, \<open>*\<close>.
\<close>

theorem elementwise_operations:
  assumes "rows self = rows a" and "columns self = columns a"
  shows "add self a = Returned (self\<lparr>array :=
           map (\<lambda>i. f64_add (array self ! i) (elem (array a) i)) [0..<length (array self)]\<rparr>)
       \<and> subtract self a = Returned (self\<lparr>array :=
           map (\<lambda>i. f64_sub (array self ! i) (elem (array a) i)) [0..<length (array self)]\<rparr>)
       \<and> hadamardProduct self a = Returned (self\<lparr>array :=
           map (\<lambda>i. f64_mul (array self ! i) (elem (array a) i)) [0..<length (array self)]\<rparr>)"
  using assms by (simp add: add_def subtract_def hadamardProduct_def forEach_assign_map)

theorem elementwise_operations_witness:
  "rows \<lparr>array = map f64_of_int [1, 2], rows = 1, columns = 2\<rparr>
     = rows \<lparr>array = map f64_of_int [3, 4], rows = 1, columns = 2\<rparr>
   \<and> columns \<lparr>array = map f64_of_int [1, 2], rows = 1, columns = 2\<rparr>
     = columns \<lparr>array = map f64_of_int [3, 4], rows = 1, columns = 2\<rparr>
   \<and> add \<lparr>array = map f64_of_int [1, 2], rows = 1, columns = 2\<rparr>
          \<lparr>array = map f64_of_int [3, 4], rows = 1, columns = 2\<rparr>
       = Returned \<lparr>array = map f64_of_int [4, 6], rows = 1, columns = 2\<rparr>
   \<and> subtract \<lparr>array = map f64_of_int [1, 2], rows = 1, columns = 2\<rparr>
               \<lparr>array = map f64_of_int [3, 4], rows = 1, columns = 2\<rparr>
       = Returned \<lparr>array = map f64_of_int [- 2, - 2], rows = 1, columns = 2\<rparr>
   \<and> hadamardProduct \<lparr>array = map f64_of_int [1, 2], rows = 1, columns = 2\<rparr>
                      \<lparr>array = map f64_of_int [3, 4], rows = 1, columns = 2\<rparr>
       = Returned \<lparr>array = map f64_of_int [3, 8], rows = 1, columns = 2\<rparr>"
  using elementwise_operations
          [of "\<lparr>array = map f64_of_int [1, 2], rows = 1, columns = 2\<rparr>"
              "\<lparr>array = map f64_of_int [3, 4], rows = 1, columns = 2\<rparr>"]
  by (simp add: elem_def f64_eval cong: let_weak_cong)

text \<open>
  C4. \<^verbatim>\<open>add\<close>, \<^verbatim>\<open>subtract\<close>, \<^verbatim>\<open>hadamardProduct\<close> and \<^verbatim>\<open>set\<close> with a matrix source throw
  the "dimensions aren't the same" error exactly when the rows or the columns of the
  argument differ from those of the receiver, and the receiver is then as it was before
  the call.
\<close>

theorem dimension_mismatch:
  "(rows self \<noteq> rows a \<or> columns self \<noteq> columns a \<longrightarrow>
      add self a =
        Threw (DimensionsNotSame ''add'' (rows self) (columns self) (rows a) (columns a)) self
    \<and> subtract self a =
        Threw (DimensionsNotSame ''subtract'' (rows self) (columns self) (rows a) (columns a)) self
    \<and> hadamardProduct self a =
        Threw (DimensionsNotSame ''product'' (rows self) (columns self) (rows a) (columns a)) self
    \<and> set_M self (FromMatrix a) =
        Threw (DimensionsNotSame ''set'' (rows self) (columns self) (rows a) (columns a)) self)
 \<and> (rows self = rows a \<and> columns self = columns a \<longrightarrow>
      (\<exists>m. add self a = Returned m) \<and> (\<exists>m. subtract self a = Returned m)
    \<and> (\<exists>m. hadamardProduct self a = Returned m) \<and> (\<exists>m. set_M self (FromMatrix a) = Returned m))"
  by (simp add: add_def subtract_def hadamardProduct_def)

theorem dimension_mismatch_witness:
  "rows \<lparr>array = replicate 6 f64_zero, rows = 2, columns = 3\<rparr>
     \<noteq> rows \<lparr>array = replicate 6 f64_zero, rows = 3, columns = 2\<rparr>
   \<and> add \<lparr>array = replicate 6 f64_zero, rows = 2, columns = 3\<rparr>
          \<lparr>array = replicate 6 f64_zero, rows = 3, columns = 2\<rparr>
       = Threw (DimensionsNotSame ''add'' 2 3 3 2)
           \<lparr>array = replicate 6 f64_zero, rows = 2, columns = 3\<rparr>
   \<and> set_M \<lparr>array = replicate 6 f64_zero, rows = 2, columns = 3\<rparr>
          (FromMatrix \<lparr>array = replicate 6 f64_zero, rows = 3, columns = 2\<rparr>)
       = Threw (DimensionsNotSame ''set'' 2 3 3 2)
           \<lparr>array = replicate 6 f64_zero, rows = 2, columns = 3\<rparr>
   \<and> rows \<lparr>array = [f64_of_int 1], rows = 1, columns = 1\<rparr>
       = rows \<lparr>array = [f64_of_int 2], rows = 1, columns = 1\<rparr>
   \<and> columns \<lparr>array = [f64_of_int 1], rows = 1, columns = 1\<rparr>
       = columns \<lparr>array = [f64_of_int 2], rows = 1, columns = 1\<rparr>
   \<and> set_M \<lparr>array = [f64_of_int 1], rows = 1, columns = 1\<rparr>
          (FromMatrix \<lparr>array = [f64_of_int 2], rows = 1, columns = 1\<rparr>)
       = Returned \<lparr>array = [f64_of_int 2], rows = 1, columns = 1\<rparr>"
  using dimension_mismatch
          [of "\<lparr>array = replicate 6 f64_zero, rows = 2, columns = 3\<rparr>"
              "\<lparr>array = replicate 6 f64_zero, rows = 3, columns = 2\<rparr>"]
        dimension_mismatch
          [of "\<lparr>array = [f64_of_int 1], rows = 1, columns = 1\<rparr>"
              "\<lparr>array = [f64_of_int 2], rows = 1, columns = 1\<rparr>"]
  by simp

text \<open>
  C5. \<^verbatim>\<open>multiply(a)\<close> throws the "incompatible dimensions" error exactly when
  \<open>self.columns\<close> differs from \<open>a.rows\<close>, and the receiver is then as it was before the
  call.
\<close>

theorem incompatible_dimensions:
  "(columns self \<noteq> rows a \<longrightarrow>
      multiply self a =
        Threw (IncompatibleDimensions (rows self) (columns self) (rows a) (columns a)) self)
 \<and> (columns self = rows a \<longrightarrow> (\<exists>m. multiply self a = Returned m))"
  by (simp add: multiply_def)

theorem incompatible_dimensions_witness:
  "columns \<lparr>array = replicate 6 f64_zero, rows = 2, columns = 3\<rparr>
     \<noteq> rows \<lparr>array = replicate 4 f64_zero, rows = 2, columns = 2\<rparr>
   \<and> multiply \<lparr>array = replicate 6 f64_zero, rows = 2, columns = 3\<rparr>
               \<lparr>array = replicate 4 f64_zero, rows = 2, columns = 2\<rparr>
       = Threw (IncompatibleDimensions 2 3 2 2)
           \<lparr>array = replicate 6 f64_zero, rows = 2, columns = 3\<rparr>
   \<and> columns \<lparr>array = [f64_of_int 3], rows = 1, columns = 1\<rparr>
       = rows \<lparr>array = [f64_of_int 5], rows = 1, columns = 1\<rparr>
   \<and> multiply \<lparr>array = [f64_of_int 3], rows = 1, columns = 1\<rparr>
               \<lparr>array = [f64_of_int 5], rows = 1, columns = 1\<rparr>
       = Returned \<lparr>array = [f64_of_int 15], rows = 1, columns = 1\<rparr>"
proof -
  have "multiply \<lparr>array = [f64_of_int 3], rows = 1, columns = 1\<rparr>
                 \<lparr>array = [f64_of_int 5], rows = 1, columns = 1\<rparr>
          = Returned \<lparr>array = [f64_of_int 15], rows = 1, columns = 1\<rparr>"
    by (simp add: matrix_eval f64_eval cong: let_weak_cong)
  then show ?thesis
    using incompatible_dimensions
            [of "\<lparr>array = replicate 6 f64_zero, rows = 2, columns = 3\<rparr>"
                "\<lparr>array = replicate 4 f64_zero, rows = 2, columns = 2\<rparr>"]
          incompatible_dimensions
            [of "\<lparr>array = [f64_of_int 3], rows = 1, columns = 1\<rparr>"
                "\<lparr>array = [f64_of_int 5], rows = 1, columns = 1\<rparr>"]
    by simp
qed

text \<open>
  C6. For every matrix whose buffer has \<open>rows * columns\<close> elements, of any shape,
  transposing twice gives back the matrix: the same rows, columns and elements.
\<close>

theorem transpose_twice:
  assumes "shape_ok M"
  shows "and_then (transpose_M M) transpose_M = Returned M"
proof -
  let ?T = "M\<lparr>rows := columns M, columns := rows M, array := transpose_result M\<rparr>"
  have T: "transpose_M M = Returned ?T" by (simp add: transpose_M_def)
  have len: "length (transpose_result ?T) = length (array M)"
    using assms by (simp add: transpose_result_length shape_ok_def mult.commute)
  have "transpose_result ?T ! p = array M ! p" if p: "p < length (array M)" for p
  proof -
    have pc: "p < rows M * columns M" using p assms by (simp add: shape_ok_def)
    then have c: "0 < columns M" by (cases "columns M") simp_all
    define i j where "i = p div columns M" and "j = p mod columns M"
    have j: "j < columns M" using c by (simp add: j_def)
    have i: "i < rows M" using pc by (simp add: i_def less_mult_imp_div_less)
    have p_eq: "p = i * columns M + j" by (simp add: i_def j_def)
    have "transpose_result ?T ! (i * rows ?T + j) = elem (array ?T) (j * columns ?T + i)"
      using i j by (intro transpose_result_nth) simp_all
    also have "\<dots> = transpose_result M ! (j * rows M + i)"
      using i j flat_index_bound [of j "columns M" i "rows M"]
      by (simp add: elem_def transpose_result_length mult.commute)
    also have "\<dots> = elem (array M) (i * columns M + j)"
      using i j by (rule transpose_result_nth)
    also have "\<dots> = array M ! p"
      using p p_eq by (simp add: elem_def)
    finally show ?thesis using p_eq by simp
  qed
  then have "transpose_result ?T = array M"
    using len by (intro nth_equalityI) simp_all
  then have "transpose_M ?T = Returned M"
    by (simp add: transpose_M_def)
  then show ?thesis using T by (simp add: and_then_def)
qed

theorem transpose_twice_witness:
  "shape_ok \<lparr>array = map f64_of_int [1, 2, 3, 4, 5, 6], rows = 2, columns = 3\<rparr>
   \<and> and_then (transpose_M \<lparr>array = map f64_of_int [1, 2, 3, 4, 5, 6], rows = 2, columns = 3\<rparr>)
         transpose_M
       = Returned \<lparr>array = map f64_of_int [1, 2, 3, 4, 5, 6], rows = 2, columns = 3\<rparr>"
proof -
  have ok: "shape_ok \<lparr>array = map f64_of_int [1, 2, 3, 4, 5, 6], rows = 2, columns = 3\<rparr>"
    by (simp add: shape_ok_def)
  show ?thesis using ok transpose_twice [OF ok] by simp
qed

text \<open>
  C7, as stated: \<^verbatim>\<open>M.clone().add(A).subtract(A)\<close> equals \<open>M\<close> exactly, for all \<open>M\<close> and
  \<open>A\<close> of the same shape. It does not at \<open>M = [1]\<close>, \<open>A = [9007199254740992]\<close>, both
  1 x 1: \<open>1 + 2^53\<close> rounds to \<open>2^53\<close>, and \<open>2^53 - 2^53\<close> is \<open>0\<close>.
\<close>

theorem add_then_subtract_counterexample:
  "clone_add_subtract \<lparr>array = [f64_of_int 1], rows = 1, columns = 1\<rparr>
                      \<lparr>array = [f64_of_int 9007199254740992], rows = 1, columns = 1\<rparr>
     = Returned \<lparr>array = [f64_zero], rows = 1, columns = 1\<rparr>
   \<and> clone_add_subtract \<lparr>array = [f64_of_int 1], rows = 1, columns = 1\<rparr>
                          \<lparr>array = [f64_of_int 9007199254740992], rows = 1, columns = 1\<rparr>
     \<noteq> Returned \<lparr>array = [f64_of_int 1], rows = 1, columns = 1\<rparr>"
  by (simp add: clone_add_subtract_def matrix_eval f64_eval cong: let_weak_cong)

text \<open>
  C7, amended. For \<open>M\<close> and \<open>A\<close> of the same rows and columns,
  \<^verbatim>\<open>M.clone().add(A).subtract(A)\<close> returns a matrix with the rows and columns of \<open>M\<close>
  whose element at every flat index \<open>i\<close> is the double \<open>(M[i] + A[i]) - A[i]\<close>. The result
  is \<open>M\<close>, element for element and with \<open>-0\<close> told from \<open>+0\<close>, exactly when this
  double is \<open>M[i]\<close> at every \<open>i\<close>. It is so when, at every \<open>i\<close>, \<open>M[i]\<close> and \<open>A[i]\<close>
  are doubles of integers \<open>x\<close> and \<open>y\<close> (so neither is the negative zero) with \<open>x\<close>, \<open>y\<close>
  and \<open>x + y\<close> of magnitude below \<open>2^53\<close>. Outside this it can fail, as it does at
  \<open>M = [1]\<close>, \<open>A = [2^53]\<close>.
\<close>

theorem add_then_subtract:
  assumes "rows M = rows A" and "columns M = columns A"
  shows "clone_add_subtract M A = Returned (M\<lparr>array :=
           map (\<lambda>i. f64_sub (f64_add (array M ! i) (elem (array A) i)) (elem (array A) i))
             [0..<length (array M)]\<rparr>)
       \<and> (clone_add_subtract M A = Returned M \<longleftrightarrow>
            (\<forall>i<length (array M).
               f64_sub (f64_add (array M ! i) (elem (array A) i)) (elem (array A) i)
                 = array M ! i))
       \<and> ((\<forall>i<length (array M). \<exists>x y.
               array M ! i = f64_of_int x \<and> elem (array A) i = f64_of_int y
               \<and> \<bar>x\<bar> < 2 ^ 53 \<and> \<bar>y\<bar> < 2 ^ 53 \<and> \<bar>x + y\<bar> < 2 ^ 53)
            \<longrightarrow> clone_add_subtract M A = Returned M)"
proof -
  let ?rt = "\<lambda>i. f64_sub (f64_add (array M ! i) (elem (array A) i)) (elem (array A) i)"
  let ?xs = "map ?rt [0..<length (array M)]"
  have res: "clone_add_subtract M A = Returned (M\<lparr>array := ?xs\<rparr>)"
    using assms
    by (simp add: clone_add_subtract_def clone_copy and_then_def add_def subtract_def
                  forEach_assign_map)
  have "M\<lparr>array := ?xs\<rparr> = M \<longleftrightarrow> ?xs = array M"
    by (cases M) simp
  also have "\<dots> \<longleftrightarrow> (\<forall>i<length (array M). ?rt i = array M ! i)"
  proof
    assume eq: "?xs = array M"
    show "\<forall>i<length (array M). ?rt i = array M ! i"
    proof (intro allI impI)
      fix i assume i: "i < length (array M)"
      then have "?xs ! i = ?rt i" by simp
      moreover have "?xs ! i = array M ! i" using eq by (rule arg_cong)
      ultimately show "?rt i = array M ! i" by (rule trans [OF sym])
    qed
  next
    assume "\<forall>i<length (array M). ?rt i = array M ! i"
    then show "?xs = array M" by (intro nth_equalityI) simp_all
  qed
  finally have iff: "clone_add_subtract M A = Returned M
                       \<longleftrightarrow> (\<forall>i<length (array M). ?rt i = array M ! i)"
    using res by simp
  have "\<forall>i<length (array M). ?rt i = array M ! i"
    if "\<forall>i<length (array M). \<exists>x y.
          array M ! i = f64_of_int x \<and> elem (array A) i = f64_of_int y
          \<and> \<bar>x\<bar> < 2 ^ 53 \<and> \<bar>y\<bar> < 2 ^ 53 \<and> \<bar>x + y\<bar> < 2 ^ 53"
    using that int_round_trip by metis
  then show ?thesis using res iff by blast
qed

theorem add_then_subtract_witness:
  "rows \<lparr>array = map f64_of_int [1, 2], rows = 1, columns = 2\<rparr>
     = rows \<lparr>array = map f64_of_int [3, 4], rows = 1, columns = 2\<rparr>
   \<and> columns \<lparr>array = map f64_of_int [1, 2], rows = 1, columns = 2\<rparr>
     = columns \<lparr>array = map f64_of_int [3, 4], rows = 1, columns = 2\<rparr>
   \<and> f64_sub (f64_add (f64_of_int 1) (f64_of_int 3)) (f64_of_int 3) = f64_of_int 1
   \<and> f64_sub (f64_add (f64_of_int 2) (f64_of_int 4)) (f64_of_int 4) = f64_of_int 2
   \<and> clone_add_subtract \<lparr>array = map f64_of_int [1, 2], rows = 1, columns = 2\<rparr>
                          \<lparr>array = map f64_of_int [3, 4], rows = 1, columns = 2\<rparr>
       = Returned \<lparr>array = map f64_of_int [1, 2], rows = 1, columns = 2\<rparr>"
proof -
  let ?M = "\<lparr>array = map f64_of_int [1, 2], rows = 1, columns = 2\<rparr>"
  let ?A = "\<lparr>array = map f64_of_int [3, 4], rows = 1, columns = 2\<rparr>"
  have h1: "rows ?M = rows ?A" and h2: "columns ?M = columns ?A" by simp_all
  have ints: "\<forall>i<length (array ?M). \<exists>x y.
      array ?M ! i = f64_of_int x \<and> elem (array ?A) i = f64_of_int y
      \<and> \<bar>x\<bar> < 2 ^ 53 \<and> \<bar>y\<bar> < 2 ^ 53 \<and> \<bar>x + y\<bar> < 2 ^ 53"
  proof (intro allI impI)
    fix i assume "i < length (array ?M)"
    then consider "i = 0" | "i = 1" by fastforce
    then show "\<exists>x y. array ?M ! i = f64_of_int x \<and> elem (array ?A) i = f64_of_int y
                 \<and> \<bar>x\<bar> < 2 ^ 53 \<and> \<bar>y\<bar> < 2 ^ 53 \<and> \<bar>x + y\<bar> < 2 ^ 53"
    proof cases
      case 1
      then show ?thesis by (intro exI [of _ 1] exI [of _ 3]) (simp add: elem_def)
    next
      case 2
      then show ?thesis by (intro exI [of _ 2] exI [of _ 4]) (simp add: elem_def)
    qed
  qed
  note inst = add_then_subtract [OF h1 h2]
  from inst ints have same: "clone_add_subtract ?M ?A = Returned ?M" by blast
  with inst have each: "\<forall>i<length (array ?M).
      f64_sub (f64_add (array ?M ! i) (elem (array ?A) i)) (elem (array ?A) i) = array ?M ! i"
    by blast
  have "f64_sub (f64_add (f64_of_int 1) (f64_of_int 3)) (f64_of_int 3) = f64_of_int 1"
    using each [rule_format, of 0] by (simp add: elem_def)
  moreover have "f64_sub (f64_add (f64_of_int 2) (f64_of_int 4)) (f64_of_int 4) = f64_of_int 2"
    using each [rule_format, of 1] by (simp add: elem_def)
  ultimately show ?thesis using same by simp
qed

text \<open>
  C8. The claim is that every operation leaves \<open>length array = rows * columns\<close> or fails
  without a change. \<^verbatim>\<open>set\<close> with a flat sequence does neither: on a new 2 x 2 matrix,
  \<^verbatim>\<open>set([1, 2, 3])\<close> returns and the buffer has 3 elements for 2 rows and 2 columns.
\<close>

theorem set_sequence_breaks_shape:
  "shape_ok (constructor 2 2)
   \<and> set_M (constructor 2 2) (FromSequence (map f64_of_int [1, 2, 3]))
       = Returned \<lparr>array = map f64_of_int [1, 2, 3], rows = 2, columns = 2\<rparr>
   \<and> \<not> shape_ok \<lparr>array = map f64_of_int [1, 2, 3], rows = 2, columns = 2\<rparr>"
  by (simp add: constructor_def shape_ok_def)

text \<open>
  C9. \<^verbatim>\<open>multiplyByScalar(0)\<close> replaces every element \<open>x\<close> by the double \<open>x * 0\<close>: a zero
  when \<open>x\<close> is finite, NaN when \<open>x\<close> is NaN or an infinity.
\<close>

theorem multiplyByScalar_zero:
  "multiplyByScalar self f64_zero =
     Returned (self\<lparr>array := map (\<lambda>x. f64_mul x f64_zero) (array self)\<rparr>)
   \<and> (\<forall>x \<in> set (array self).
         (is_finite x \<longrightarrow> is_zero (f64_mul x f64_zero))
       \<and> (\<not> is_finite x \<longrightarrow> f64_mul x f64_zero = NaN))"
proof -
  have "(is_finite x \<longrightarrow> is_zero (f64_mul x f64_zero))
      \<and> (\<not> is_finite x \<longrightarrow> f64_mul x f64_zero = NaN)" for x
    by (cases x) (simp_all add: f64_mul_zero)
  then show ?thesis
    by (simp add: multiplyByScalar_def forEach_assign_pointwise)
qed

theorem multiplyByScalar_zero_witness:
  "f64_of_int 5 \<in> set (array \<lparr>array = [f64_of_int 5, Inf True, NaN], rows = 1, columns = 3\<rparr>)
   \<and> is_finite (f64_of_int 5) \<and> is_zero (f64_mul (f64_of_int 5) f64_zero)
   \<and> Inf True \<in> set (array \<lparr>array = [f64_of_int 5, Inf True, NaN], rows = 1, columns = 3\<rparr>)
   \<and> \<not> is_finite (Inf True) \<and> f64_mul (Inf True) f64_zero = NaN
   \<and> multiplyByScalar \<lparr>array = [f64_of_int 5, Inf True, NaN], rows = 1, columns = 3\<rparr> f64_zero
       = Returned \<lparr>array = [f64_zero, NaN, NaN], rows = 1, columns = 3\<rparr>"
proof -
  have five: "f64_of_int 5 = Fin False 5 0"
    by (simp add: f64_eval cong: let_weak_cong)
  show ?thesis
    using multiplyByScalar_zero
            [of "\<lparr>array = [f64_of_int 5, Inf True, NaN], rows = 1, columns = 3\<rparr>"]
    by (simp add: five f64_zero_def round_f64_zero)
qed

text \<open>
  C10. \<^verbatim>\<open>map\<close>, \<^verbatim>\<open>randomize\<close>, \<^verbatim>\<open>multiplyByScalar\<close>, \<^verbatim>\<open>add\<close>, \<^verbatim>\<open>subtract\<close> and
  \<^verbatim>\<open>hadamardProduct\<close> leave the rows and columns fields of the receiver as they were
  (when they return, and also when they throw).
\<close>

theorem in_place_frame:
  "rows (receiver (map_M predicate self)) = rows self
 \<and> columns (receiver (map_M predicate self)) = columns self
 \<and> rows (receiver (randomize random self)) = rows self
 \<and> columns (receiver (randomize random self)) = columns self
 \<and> rows (receiver (multiplyByScalar self s)) = rows self
 \<and> columns (receiver (multiplyByScalar self s)) = columns self
 \<and> rows (receiver (add self a)) = rows self
 \<and> columns (receiver (add self a)) = columns self
 \<and> rows (receiver (subtract self a)) = rows self
 \<and> columns (receiver (subtract self a)) = columns self
 \<and> rows (receiver (hadamardProduct self a)) = rows self
 \<and> columns (receiver (hadamardProduct self a)) = columns self"
  by (simp add: map_M_def randomize_def and_then_def multiplyByScalar_def add_def subtract_def
                hadamardProduct_def)

text \<open>
  At a 1 x 2 matrix, with an argument of the same shape: rows stay 1 and columns stay 2.
\<close>

theorem in_place_frame_witness:
  "rows (receiver (map_M (\<lambda>x i xs. f64_neg x)
                     \<lparr>array = map f64_of_int [1, 2], rows = 1, columns = 2\<rparr>)) = 1
   \<and> columns (receiver (map_M (\<lambda>x i xs. f64_neg x)
                     \<lparr>array = map f64_of_int [1, 2], rows = 1, columns = 2\<rparr>)) = 2
   \<and> rows (receiver (randomize (\<lambda>k. f64_zero)
                     \<lparr>array = map f64_of_int [1, 2], rows = 1, columns = 2\<rparr>)) = 1
   \<and> columns (receiver (randomize (\<lambda>k. f64_zero)
                     \<lparr>array = map f64_of_int [1, 2], rows = 1, columns = 2\<rparr>)) = 2
   \<and> rows (receiver (multiplyByScalar
                     \<lparr>array = map f64_of_int [1, 2], rows = 1, columns = 2\<rparr>
                     (f64_of_int 2))) = 1
   \<and> columns (receiver (multiplyByScalar
                     \<lparr>array = map f64_of_int [1, 2], rows = 1, columns = 2\<rparr>
                     (f64_of_int 2))) = 2
   \<and> rows (receiver (add \<lparr>array = map f64_of_int [1, 2], rows = 1, columns = 2\<rparr>
                          \<lparr>array = map f64_of_int [3, 4], rows = 1, columns = 2\<rparr>)) = 1
   \<and> columns (receiver (add \<lparr>array = map f64_of_int [1, 2], rows = 1, columns = 2\<rparr>
                             \<lparr>array = map f64_of_int [3, 4], rows = 1, columns = 2\<rparr>)) = 2
   \<and> rows (receiver (subtract \<lparr>array = map f64_of_int [1, 2], rows = 1, columns = 2\<rparr>
                               \<lparr>array = map f64_of_int [3, 4], rows = 1, columns = 2\<rparr>)) = 1
   \<and> columns (receiver (subtract \<lparr>array = map f64_of_int [1, 2], rows = 1, columns = 2\<rparr>
                                  \<lparr>array = map f64_of_int [3, 4], rows = 1, columns = 2\<rparr>)) = 2
   \<and> rows (receiver (hadamardProduct
                     \<lparr>array = map f64_of_int [1, 2], rows = 1, columns = 2\<rparr>
                     \<lparr>array = map f64_of_int [3, 4], rows = 1, columns = 2\<rparr>)) = 1
   \<and> columns (receiver (hadamardProduct
                     \<lparr>array = map f64_of_int [1, 2], rows = 1, columns = 2\<rparr>
                     \<lparr>array = map f64_of_int [3, 4], rows = 1, columns = 2\<rparr>)) = 2"
  using in_place_frame
          [of "\<lambda>x i xs. f64_neg x"
              "\<lparr>array = map f64_of_int [1, 2], rows = 1, columns = 2\<rparr>"
              "\<lambda>k. f64_zero" "f64_of_int 2"
              "\<lparr>array = map f64_of_int [3, 4], rows = 1, columns = 2\<rparr>"]
  by simp

end
